theory Spec2Isabelle
  imports Main
begin

section \<open>Strings\<close>

text \<open>
  A JavaScript string is a sequence of code units. It is modelled as a \<^typ>\<open>string\<close>:
  every \<^typ>\<open>char\<close> is one code unit in the range 0..255, which holds every string
  the program writes itself and every ASCII input. \<open>String.prototype.trim\<close> and
  \<open>parseInt\<close> strip the white space and line terminators of ECMAScript; in this
  range they are TAB, LF, VT, FF, CR, SP and NBSP.
\<close>

definition is_ws :: "char \<Rightarrow> bool" where
  "is_ws c = (c \<in> set [CHR 0x09, CHR 0x0A, CHR 0x0B, CHR 0x0C, CHR 0x0D, CHR 0x20, CHR 0xA0])"

definition trim_start :: "string \<Rightarrow> string" where
  "trim_start s = dropWhile is_ws s"

definition trim :: "string \<Rightarrow> string" where
  "trim s = rev (dropWhile is_ws (rev (dropWhile is_ws s)))"

text \<open>
  \<open>s.split(c)\<close> for a separator of one character: the fields between the
  separators, so that the empty string has the single field \<open>""\<close>.
\<close>

fun split_on :: "char \<Rightarrow> string \<Rightarrow> string list" where
  "split_on c [] = [[]]"
| "split_on c (x # xs) =
     (if x = c then [] # split_on c xs
      else (case split_on c xs of
              [] \<Rightarrow> [[x]]
            | t # ts \<Rightarrow> (x # t) # ts))"

text \<open>\<open>s.includes(t)\<close>: \<open>t\<close> occurs in \<open>s\<close> as a contiguous substring.\<close>

fun is_prefix :: "string \<Rightarrow> string \<Rightarrow> bool" where
  "is_prefix [] s = True"
| "is_prefix (p # ps) [] = False"
| "is_prefix (p # ps) (c # cs) = (p = c \<and> is_prefix ps cs)"

fun str_includes :: "string \<Rightarrow> string \<Rightarrow> bool" where
  "str_includes [] t = (t = [])"
| "str_includes (c # cs) t = (is_prefix t (c # cs) \<or> str_includes cs t)"

section \<open>parseInt\<close>

text \<open>
  \<open>parseInt(s)\<close> with no radix, after ECMAScript: leading white space is skipped, an
  optional sign is read, a prefix \<open>0x\<close> or \<open>0X\<close> selects radix 16 (radix 10
  otherwise), and the longest run of digits of that radix is the value; whatever follows
  is ignored. No digit at all gives \<open>NaN\<close>, which is \<open>None\<close> here. A Number is an
  \<^typ>\<open>int\<close>: the model is exact where JavaScript is, on integers of magnitude up to
  \<open>2^53\<close>, and does not round beyond.
\<close>

definition digit_val :: "char \<Rightarrow> nat option" where
  "digit_val c =
     (let n = of_char c :: nat in
      if 48 \<le> n \<and> n \<le> 57 then Some (n - 48)
      else if 97 \<le> n \<and> n \<le> 122 then Some (n - 87)
      else if 65 \<le> n \<and> n \<le> 90 then Some (n - 55)
      else None)"

definition is_digit :: "nat \<Rightarrow> char \<Rightarrow> bool" where
  "is_digit r c = (case digit_val c of None \<Rightarrow> False | Some d \<Rightarrow> d < r)"

definition digits_value :: "nat \<Rightarrow> string \<Rightarrow> int" where
  "digits_value r z = foldl (\<lambda>acc c. acc * int r + int (the (digit_val c))) 0 z"

definition parseInt :: "string \<Rightarrow> int option" where
  "parseInt inputString =
     (let s0 = trim_start inputString;
          sign = (if s0 \<noteq> [] \<and> hd s0 = CHR ''-'' then -1 else 1 :: int);
          s1 = (if s0 \<noteq> [] \<and> (hd s0 = CHR ''+'' \<or> hd s0 = CHR ''-'') then tl s0 else s0);
          hex = (is_prefix ''0x'' s1 \<or> is_prefix ''0X'' s1);
          r = (if hex then 16 else 10 :: nat);
          s2 = (if hex then drop 2 s1 else s1);
          z = takeWhile (is_digit r) s2
      in if z = [] then None else Some (sign * digits_value r z))"

section \<open>The page parser\<close>

text \<open>
  A \<open>Set<number>\<close> keeps its members in insertion order and \<open>add\<close> ignores a
  member it already has: a list without repetition, extended at the end.
\<close>

definition set_add :: "'a \<Rightarrow> 'a list \<Rightarrow> 'a list" where
  "set_add x xs = (if x \<in> set xs then xs else xs @ [x])"

text \<open>
  The loop \<open>for (let i = lo; i <= hi; i++) if (i > 0) pages.add(i)\<close>.
\<close>

function range_loop :: "int \<Rightarrow> int \<Rightarrow> int list \<Rightarrow> int list" where
  "range_loop i hi pages =
     (if i \<le> hi then range_loop (i + 1) hi (if 0 < i then set_add i pages else pages)
      else pages)"
  by pat_completeness auto
termination
  by (relation "measure (\<lambda>(i, hi, pages). nat (hi + 1 - i))") auto

declare range_loop.simps [simp del]

text \<open>
  The destructuring \<open>[start, end] = part.split("-").map(n => parseInt(n.trim()))\<close>:
  the first two fields are parsed, further fields are ignored, and a missing field is
  \<open>undefined\<close>, which \<open>isNaN\<close> rejects like \<open>NaN\<close>.
\<close>

definition endpoint :: "string list \<Rightarrow> nat \<Rightarrow> int option" where
  "endpoint fields k = (if k < length fields then parseInt (trim (fields ! k)) else None)"

text \<open>The body of the loop over the parts (lines 19 to 33).\<close>

definition add_part :: "int list \<Rightarrow> string \<Rightarrow> int list" where
  "add_part pages part =
     (if CHR ''-'' \<in> set part then
        (let fields = split_on CHR ''-'' part in
         case (endpoint fields 0, endpoint fields 1) of
           (Some start, Some stop) \<Rightarrow> range_loop (min start stop) (max start stop) pages
         | _ \<Rightarrow> pages)
      else
        (case parseInt part of
           Some num \<Rightarrow> if 0 < num then set_add num pages else pages
         | None \<Rightarrow> pages))"

definition parts_of :: "string \<Rightarrow> string list" where
  "parts_of input = filter (\<lambda>p. p \<noteq> []) (map trim (split_on CHR '','' (trim input)))"

text \<open>
  \<open>Array.from(pages).sort((a, b) => a - b)\<close> orders the members by their numeric
  value, ascending; \<^const>\<open>sort\<close> does the same on \<^typ>\<open>int\<close>.
\<close>

definition parsePages :: "string \<Rightarrow> int list" where
  "parsePages input = sort (foldl add_part [] (parts_of input))"

subsection \<open>What the specification says of one token and of joined tokens\<close>



section \<open>Values of the extraction service\<close>

text \<open>
  Every payload of the service is typed \<open>any\<close>: it is whatever \<open>Response.json()\<close>
  parsed. A value is \<open>undefined\<close>, \<open>null\<close>, a boolean, a number, a string, an array
  or an object; an object is the list of its own properties, each key once. Numbers are
  integers here, which is what the program compares with zero and counts.
\<close>

datatype jsvalue =
    JUndefined
  | JNull
  | JBool bool
  | JNum int
  | JStr string
  | JArr "jsvalue list"
  | JObj "(string \<times> jsvalue) list"

text \<open>\<open>ToBoolean\<close>: what \<open>if (v)\<close>, \<open>!v\<close> and \<open>v || w\<close> test.\<close>

fun truthy :: "jsvalue \<Rightarrow> bool" where
  "truthy JUndefined = False"
| "truthy JNull = False"
| "truthy (JBool b) = b"
| "truthy (JNum n) = (n \<noteq> 0)"
| "truthy (JStr s) = (s \<noteq> [])"
| "truthy (JArr vs) = True"
| "truthy (JObj kvs) = True"

definition js_or :: "jsvalue \<Rightarrow> jsvalue \<Rightarrow> jsvalue" where
  "js_or a b = (if truthy a then a else b)"

text \<open>
  \<open>v.key\<close> on a value that is neither \<open>undefined\<close> nor \<open>null\<close>, for the keys the
  program reads: an object gives its own property or \<open>undefined\<close>, and a string, a
  number, a boolean or an array has none of these keys. \<open>v?.key\<close> gives
  \<open>undefined\<close> on \<open>undefined\<close> and \<open>null\<close> as well, where \<open>v.key\<close> throws a
  \<open>TypeError\<close>.
\<close>

fun get_prop :: "jsvalue \<Rightarrow> string \<Rightarrow> jsvalue" where
  "get_prop (JObj kvs) key = (case map_of kvs key of None \<Rightarrow> JUndefined | Some v \<Rightarrow> v)"
| "get_prop v key = JUndefined"

definition nullish :: "jsvalue \<Rightarrow> bool" where
  "nullish v = (v = JUndefined \<or> v = JNull)"

definition opt_get :: "jsvalue \<Rightarrow> string \<Rightarrow> jsvalue" where
  "opt_get v key = (if nullish v then JUndefined else get_prop v key)"

text \<open>
  What the program throws and catches: \<open>new Error(v)\<close>, whose message is \<open>v\<close> as a
  string, and the \<open>TypeError\<close> of a call of something that is no function or of a
  property read on \<open>undefined\<close> or \<open>null\<close>. A rejected \<open>fetch\<close> and a body that is
  no JSON are exceptions the environment supplies.
\<close>

datatype exn = Error jsvalue | TypeError | SyntaxError

text \<open>
  \<open>v.includes(t)\<close> for a string \<open>t\<close>, on a value that is neither \<open>undefined\<close>
  nor \<open>null\<close>: a string searches for the substring, an array for a member equal to
  the string, and any other value has no method \<open>includes\<close>, so the call throws.
\<close>

fun js_includes :: "jsvalue \<Rightarrow> string \<Rightarrow> exn + bool" where
  "js_includes (JStr s) t = Inr (str_includes s t)"
| "js_includes (JArr vs) t = Inr (JStr t \<in> set vs)"
| "js_includes v t = Inl TypeError"

section \<open>Numbers as text\<close>

text \<open>
  The decimal text of an integer, as a template literal and \<open>JSON.stringify\<close> write
  it (for magnitudes below \<open>10^21\<close>).
\<close>

definition digit_char :: "nat \<Rightarrow> char" where
  "digit_char d = ''0123456789abcdef'' ! d"

fun digits_of :: "nat \<Rightarrow> string" where
  "digits_of n =
     (if n < 10 then [digit_char n]
      else digits_of (n div 10) @ [digit_char (n mod 10)])"

declare digits_of.simps [simp del]

definition number_to_string :: "int \<Rightarrow> string" where
  "number_to_string i = (if i < 0 then CHR ''-'' # digits_of (nat (- i)) else digits_of (nat i))"

definition pad :: "nat \<Rightarrow> nat \<Rightarrow> string" where
  "pad w n = replicate (w - length (digits_of n)) CHR ''0'' @ digits_of n"

section \<open>The scrape job client\<close>






section \<open>JSON text\<close>

text \<open>
  \<open>JSON.stringify(value, null, 2)\<close>, after \<open>SerializeJSONProperty\<close>,
  \<open>QuoteJSONString\<close>, \<open>SerializeJSONArray\<close> and \<open>SerializeJSONObject\<close> of
  ECMAScript with a gap of two spaces. In an array \<open>undefined\<close> is written
  \<open>null\<close>; in an object a property whose value is \<open>undefined\<close> is left out.
\<close>

definition quote_char :: "char \<Rightarrow> string" where
  "quote_char c =
     (if c = CHR 0x08 then [CHR 0x5C, CHR ''b'']
      else if c = CHR 0x09 then [CHR 0x5C, CHR ''t'']
      else if c = CHR 0x0A then [CHR 0x5C, CHR ''n'']
      else if c = CHR 0x0C then [CHR 0x5C, CHR ''f'']
      else if c = CHR 0x0D then [CHR 0x5C, CHR ''r'']
      else if c = CHR 0x22 then [CHR 0x5C, CHR 0x22]
      else if c = CHR 0x5C then [CHR 0x5C, CHR 0x5C]
      else if (of_char c :: nat) < 32 then
        [CHR 0x5C, CHR ''u'', CHR ''0'', CHR ''0'',
         digit_char (of_char c div 16), digit_char (of_char c mod 16)]
      else [c])"

definition quote_string :: "string \<Rightarrow> string" where
  "quote_string s = CHR 0x22 # concat (map quote_char s) @ [CHR 0x22]"

fun join_with :: "string \<Rightarrow> string list \<Rightarrow> string" where
  "join_with sep [] = []"
| "join_with sep [t] = t"
| "join_with sep (t # u # ts) = t @ sep @ join_with sep (u # ts)"

definition gap :: string where
  "gap = ''  ''"

definition bracket :: "char \<Rightarrow> char \<Rightarrow> string \<Rightarrow> string list \<Rightarrow> string" where
  "bracket l r indent partial =
     (if partial = [] then [l, r]
      else [l, CHR 0x0A] @ indent @ gap
           @ join_with ([CHR '','', CHR 0x0A] @ indent @ gap) partial
           @ [CHR 0x0A] @ indent @ [r])"

primrec serialize :: "string \<Rightarrow> jsvalue \<Rightarrow> string"
  and serialize_elements :: "string \<Rightarrow> jsvalue list \<Rightarrow> string list"
  and serialize_properties :: "string \<Rightarrow> (string \<times> jsvalue) list \<Rightarrow> string list"
  and serialize_property :: "string \<Rightarrow> string \<times> jsvalue \<Rightarrow> string list"
where
  "serialize indent JUndefined = ''null''"
| "serialize indent JNull = ''null''"
| "serialize indent (JBool b) = (if b then ''true'' else ''false'')"
| "serialize indent (JNum n) = number_to_string n"
| "serialize indent (JStr s) = quote_string s"
| "serialize indent (JArr vs) =
     bracket CHR ''['' CHR '']'' indent (serialize_elements (indent @ gap) vs)"
| "serialize indent (JObj kvs) =
     bracket CHR ''{'' CHR ''}'' indent (serialize_properties (indent @ gap) kvs)"
| "serialize_elements indent [] = []"
| "serialize_elements indent (v # vs) = serialize indent v # serialize_elements indent vs"
| "serialize_properties indent [] = []"
| "serialize_properties indent (kv # kvs) =
     serialize_property indent kv @ serialize_properties indent kvs"
| "serialize_property indent (k, v) =
     (if v = JUndefined then [] else [quote_string k @ '': '' @ serialize indent v])"

definition JSON_stringify :: "jsvalue \<Rightarrow> string" where
  "JSON_stringify v = serialize [] v"

section \<open>The result store\<close>

text \<open>
  The file system holds regular files by path, each with its content, and the set of the
  directories. \<open>fs.renameSync\<close> moves a file and replaces a file that has the new
  name; \<open>fs.mkdirSync\<close> with \<open>recursive\<close> leaves a directory that is there as it
  is; \<open>fs.writeFileSync\<close> replaces the whole content. Every operation is recorded in
  the order the program makes it, as is every call of \<open>scrape\<close>; the five prompts of
  the program are constant texts and are named by the stage that sends them.
\<close>

record filesystem =
  files :: "string \<rightharpoonup> string"
  dirs :: "string set"

datatype prompt = DiscoverPrompt | EventPrompt | OrganizerPrompt | WebsitePrompt | FacebookPrompt

datatype io_event =
    ExistsSync string
  | RenameSync string string
  | MkdirSync string
  | WriteFileSync string string
  | ScrapeCall "jsvalue list" prompt

text \<open>
  \<open>new Date().toISOString()\<close>: the clock's reading in UTC as
  \<open>YYYY-MM-DDTHH:mm:ss.sssZ\<close>, and with a sign and six digits for a year after 9999.
\<close>

record date_time =
  year :: nat
  month :: nat
  day :: nat
  hour :: nat
  minute :: nat
  second :: nat
  millisecond :: nat

definition toISOString :: "date_time \<Rightarrow> string" where
  "toISOString d =
     (if year d \<le> 9999 then pad 4 (year d) else CHR ''+'' # pad 6 (year d))
     @ ''-'' @ pad 2 (month d) @ ''-'' @ pad 2 (day d)
     @ ''T'' @ pad 2 (hour d) @ '':'' @ pad 2 (minute d) @ '':'' @ pad 2 (second d)
     @ ''.'' @ pad 3 (millisecond d) @ ''Z''"

text \<open>The final record of one event (lines 194 to 206).\<close>

record event_record =
  event_name :: jsvalue
  event_url :: jsvalue
  organizer_name :: jsvalue
  organizer_url :: jsvalue
  organizer_website :: jsvalue
  email :: jsvalue
  phone :: jsvalue
  address :: jsvalue
  facebook :: jsvalue
  follower_count :: jsvalue
  total_events :: jsvalue

definition record_value :: "event_record \<Rightarrow> jsvalue" where
  "record_value r =
     JObj [(''event_name'', event_name r), (''event_url'', event_url r),
           (''organizer_name'', organizer_name r), (''organizer_url'', organizer_url r),
           (''organizer_website'', organizer_website r), (''email'', email r),
           (''phone'', phone r), (''address'', address r), (''facebook'', facebook r),
           (''follower_count'', follower_count r), (''total_events'', total_events r)]"

text \<open>
  The state of one run: the extraction service as the next call of \<open>scrape\<close> will find
  it, the file system, \<open>allResults\<close>, \<open>eventUrlSet\<close> and what was done so far.
\<close>

record 'w run_state =
  world :: 'w
  fs :: filesystem
  allResults :: "event_record list"
  eventUrlSet :: "jsvalue list"
  trace :: "io_event list"

definition outputPath :: string where
  "outputPath = ''output/events.json''"

text \<open>\<open>.replace(/[:.]/g, "-").slice(0, 19)\<close>, one character at a time.\<close>

definition dash :: "char \<Rightarrow> char" where
  "dash c = (if c = CHR '':'' \<or> c = CHR ''.'' then CHR ''-'' else c)"

definition timestamp_of :: "date_time \<Rightarrow> string" where
  "timestamp_of now = take 19 (map dash (toISOString now))"

definition archivePath :: "date_time \<Rightarrow> string" where
  "archivePath now = ''output/events-'' @ timestamp_of now @ ''.json''"

definition existsSync :: "filesystem \<Rightarrow> string \<Rightarrow> bool" where
  "existsSync f p = (files f p \<noteq> None)"

definition renameSync :: "string \<Rightarrow> string \<Rightarrow> filesystem \<Rightarrow> filesystem" where
  "renameSync old new f =
     (if old = new then f else f\<lparr>files := (files f)(new := files f old, old := None)\<rparr>)"

definition mkdirSync :: "string \<Rightarrow> filesystem \<Rightarrow> filesystem" where
  "mkdirSync p f = f\<lparr>dirs := insert p (dirs f)\<rparr>"

definition writeFileSync :: "string \<Rightarrow> string \<Rightarrow> filesystem \<Rightarrow> filesystem" where
  "writeFileSync p text f = f\<lparr>files := (files f)(p \<mapsto> text)\<rparr>"

definition archiveExistingResults :: "date_time \<Rightarrow> 'w run_state \<Rightarrow> 'w run_state" where
  "archiveExistingResults now st =
     (if existsSync (fs st) outputPath then
        st\<lparr>fs := renameSync outputPath (archivePath now) (fs st),
           trace := trace st @ [ExistsSync outputPath, RenameSync outputPath (archivePath now)]\<rparr>
      else st\<lparr>trace := trace st @ [ExistsSync outputPath]\<rparr>)"

definition results_text :: "event_record list \<Rightarrow> string" where
  "results_text results = JSON_stringify (JArr (map record_value results))"

definition saveResults :: "event_record list \<Rightarrow> 'w run_state \<Rightarrow> 'w run_state" where
  "saveResults results st =
     st\<lparr>fs := writeFileSync ''output/events.json'' (results_text results)
                 (mkdirSync ''output'' (fs st)),
        trace := trace st @ [MkdirSync ''output'',
                             WriteFileSync ''output/events.json'' (results_text results)]\<rparr>"

section \<open>The enrichment pipeline\<close>

text \<open>
  The configuration read from the environment at start (lines 5 to 8 and 38):
  \<open>process.env.X || d\<close> is \<open>d\<close> when the variable is not set or is empty.
\<close>

record environment =
  SPIDRA_API_KEY :: "string option"
  SPIDRA_BASE_URL :: "string option"
  SEARCH_URL_var :: "string option"
  PAGES_var :: "string option"

definition env_or :: "string option \<Rightarrow> string \<Rightarrow> string" where
  "env_or v d = (case v of None \<Rightarrow> d | Some s \<Rightarrow> if s = [] then d else s)"

definition API_KEY :: "environment \<Rightarrow> string" where
  "API_KEY env = env_or (SPIDRA_API_KEY env) []"

definition SEARCH_URL :: "environment \<Rightarrow> string" where
  "SEARCH_URL env = env_or (SEARCH_URL_var env) ''https://www.eventbrite.com/d/tx--houston/lecture/''"

definition PAGES_INPUT :: "environment \<Rightarrow> string" where
  "PAGES_INPUT env = env_or (PAGES_var env) ''1-2''"

definition PAGES :: "environment \<Rightarrow> int list" where
  "PAGES env = parsePages (PAGES_INPUT env)"

text \<open>
  In \<open>main\<close> a call of \<open>scrape\<close> is taken as a whole: it returns a value or throws,
  and leaves the service in a new state, so that two calls with the same arguments may
  end differently. A call that never ends is outside this part of the model.
\<close>

type_synonym 'w scraper = "jsvalue list \<Rightarrow> prompt \<Rightarrow> 'w \<Rightarrow> (exn + jsvalue) \<times> 'w"

definition call_scrape ::
  "'w scraper \<Rightarrow> jsvalue list \<Rightarrow> prompt \<Rightarrow> 'w run_state \<Rightarrow> (exn + jsvalue) \<times> 'w run_state" where
  "call_scrape scr urls p st =
     (let (r, w) = scr urls p (world st)
      in (r, st\<lparr>world := w, trace := trace st @ [ScrapeCall urls p]\<rparr>))"

subsection \<open>Step 1: the event URLs\<close>

definition page_url :: "environment \<Rightarrow> int \<Rightarrow> string" where
  "page_url env page =
     (if page = 1 then SEARCH_URL env
      else SEARCH_URL env @ ''?page='' @ number_to_string page)"

text \<open>
  \<open>eventUrlSet.add(u)\<close>: a \<open>Set\<close> compares strings by their text and objects by
  identity, and every array that \<open>json()\<close> parsed is an object of its own.
\<close>

fun url_set_add :: "jsvalue \<Rightarrow> jsvalue list \<Rightarrow> jsvalue list" where
  "url_set_add (JArr vs) urls = urls @ [JArr vs]"
| "url_set_add (JObj kvs) urls = urls @ [JObj kvs]"
| "url_set_add u urls = set_add u urls"

text \<open>
  The callback \<open>u => u?.includes("/e/")\<close> of \<open>filter\<close>, and \<open>filter\<close> itself,
  which throws as soon as its callback does.
\<close>

definition has_marker :: "jsvalue \<Rightarrow> exn + bool" where
  "has_marker u = (if nullish u then Inr False else js_includes u ''/e/'')"

fun filter_marker :: "jsvalue list \<Rightarrow> exn + jsvalue list" where
  "filter_marker [] = Inr []"
| "filter_marker (u # us) =
     (case has_marker u of
        Inl e \<Rightarrow> Inl e
      | Inr keep \<Rightarrow>
          (case filter_marker us of
             Inl e \<Rightarrow> Inl e
           | Inr kept \<Rightarrow> Inr (if keep then u # kept else kept)))"

text \<open>
  The body of \<open>try\<close> in lines 113 to 120 after \<open>scrape\<close> has returned or thrown,
  with the \<open>catch\<close> of line 121: whatever is thrown leaves the set as it was.
  \<open>urls.filter\<close> is a function only when \<open>urls\<close> is an array.
\<close>

definition add_urls :: "jsvalue list \<Rightarrow> exn + jsvalue \<Rightarrow> jsvalue list" where
  "add_urls urlset outcome =
     (case outcome of
        Inl e \<Rightarrow> urlset
      | Inr result \<Rightarrow>
          (case js_or (opt_get result ''event_urls'') (JArr []) of
             JArr urls \<Rightarrow>
               (case filter_marker urls of
                  Inl e \<Rightarrow> urlset
                | Inr kept \<Rightarrow> foldl (\<lambda>s u. url_set_add u s) urlset kept)
           | _ \<Rightarrow> urlset))"

definition discover_page :: "'w scraper \<Rightarrow> environment \<Rightarrow> 'w run_state \<Rightarrow> int \<Rightarrow> 'w run_state" where
  "discover_page scr env st page =
     (let (outcome, st1) = call_scrape scr [JStr (page_url env page)] DiscoverPrompt st
      in st1\<lparr>eventUrlSet := add_urls (eventUrlSet st1) outcome\<rparr>)"

subsection \<open>Step 2: one event\<close>

text \<open>
  The three conditional stages after the event stage (lines 142 to 185). Each gives the
  value of its variable, which is \<open>{}\<close> when the stage is not run or throws.
\<close>

definition organizer_stage :: "'w scraper \<Rightarrow> jsvalue \<Rightarrow> 'w run_state \<Rightarrow> jsvalue \<times> 'w run_state" where
  "organizer_stage scr event st =
     (if truthy (opt_get event ''organizer_url'') then
        (case call_scrape scr [get_prop event ''organizer_url''] OrganizerPrompt st of
           (Inl e, st1) \<Rightarrow> (JObj [], st1)
         | (Inr v, st1) \<Rightarrow> (v, st1))
      else (JObj [], st))"

definition website_stage :: "'w scraper \<Rightarrow> jsvalue \<Rightarrow> 'w run_state \<Rightarrow> jsvalue \<times> 'w run_state" where
  "website_stage scr organizer st =
     (if truthy (opt_get organizer ''website'') then
        (case call_scrape scr [get_prop organizer ''website''] WebsitePrompt st of
           (Inl e, st1) \<Rightarrow> (JObj [], st1)
         | (Inr v, st1) \<Rightarrow> (js_or v (JObj []), st1))
      else (JObj [], st))"

definition fallback_stage :: "'w scraper \<Rightarrow> jsvalue \<Rightarrow> 'w run_state \<Rightarrow> jsvalue \<times> 'w run_state" where
  "fallback_stage scr websiteContact st =
     (if truthy (opt_get websiteContact ''facebook'') \<and> \<not> truthy (opt_get websiteContact ''email'') then
        (case call_scrape scr [get_prop websiteContact ''facebook''] FacebookPrompt st of
           (Inl e, st1) \<Rightarrow> (JObj [], st1)
         | (Inr v, st1) \<Rightarrow> (js_or v (JObj []), st1))
      else (JObj [], st))"

text \<open>
  \<open>cleanFacebook\<close> (lines 188 to 192). Its parameter is declared
  \<open>string | null\<close> and receives \<open>websiteContact?.facebook\<close>, which is \<open>any\<close>.
\<close>

definition cleanFacebook :: "jsvalue \<Rightarrow> exn + jsvalue" where
  "cleanFacebook fb =
     (if \<not> truthy fb then Inr JNull
      else (case js_includes fb ''facebook.com/Eventbrite'' of
              Inl e \<Rightarrow> Inl e
            | Inr found \<Rightarrow> if found then Inr JNull else Inr fb))"

text \<open>
  The object literal of lines 194 to 206. Only \<open>cleanFacebook\<close> can throw in it.
\<close>

definition fuse :: "jsvalue \<Rightarrow> jsvalue \<Rightarrow> jsvalue \<Rightarrow> jsvalue \<Rightarrow> jsvalue \<Rightarrow> exn + event_record" where
  "fuse eventUrl event organizer websiteContact facebookContact =
     (case cleanFacebook (opt_get websiteContact ''facebook'') of
        Inl e \<Rightarrow> Inl e
      | Inr fb \<Rightarrow>
          Inr \<lparr>event_name = js_or (opt_get event ''event_name'') (JStr []),
               event_url = eventUrl,
               organizer_name =
                 js_or (js_or (opt_get organizer ''organizer_name'') (opt_get event ''organizer_name''))
                   (JStr []),
               organizer_url = js_or (opt_get event ''organizer_url'') (JStr []),
               organizer_website = js_or (opt_get organizer ''website'') JNull,
               email = js_or (js_or (opt_get websiteContact ''email'') (opt_get facebookContact ''email'')) JNull,
               phone = js_or (js_or (opt_get websiteContact ''phone'') (opt_get facebookContact ''phone'')) JNull,
               address =
                 js_or (js_or (opt_get websiteContact ''address'') (opt_get facebookContact ''address'')) JNull,
               facebook = js_or fb JNull,
               follower_count = js_or (opt_get organizer ''follower_count'') (JNum 0),
               total_events = js_or (opt_get organizer ''total_events'') (JNum 0)\<rparr>)"

text \<open>
  The body of the loop of step 2 (lines 134 to 214): the \<open>try\<close> and its \<open>catch\<close>,
  which only logs.
\<close>

definition process_event :: "'w scraper \<Rightarrow> 'w run_state \<Rightarrow> jsvalue \<Rightarrow> 'w run_state" where
  "process_event scr st eventUrl =
     (case call_scrape scr [eventUrl] EventPrompt st of
        (Inl e, st1) \<Rightarrow> st1
      | (Inr event, st1) \<Rightarrow>
          (let (organizer, st2) = organizer_stage scr event st1;
               (websiteContact, st3) = website_stage scr organizer st2;
               (facebookContact, st4) = fallback_stage scr websiteContact st3
           in case fuse eventUrl event organizer websiteContact facebookContact of
                Inl e \<Rightarrow> st4
              | Inr record \<Rightarrow>
                  saveResults (allResults st4 @ [record])
                    (st4\<lparr>allResults := allResults st4 @ [record]\<rparr>)))"

subsection \<open>The run\<close>

definition initial_state :: "'w \<Rightarrow> filesystem \<Rightarrow> 'w run_state" where
  "initial_state w f = \<lparr>world = w, fs = f, allResults = [], eventUrlSet = [], trace = []\<rparr>"

definition step1 :: "'w scraper \<Rightarrow> environment \<Rightarrow> 'w run_state \<Rightarrow> 'w run_state" where
  "step1 scr env st = foldl (discover_page scr env) st (PAGES env)"

definition step2 :: "'w scraper \<Rightarrow> 'w run_state \<Rightarrow> jsvalue list \<Rightarrow> 'w run_state" where
  "step2 scr st eventUrls = foldl (process_event scr) st eventUrls"

text \<open>
  \<open>main\<close>: \<open>process.exit(1)\<close> when there is no key, and otherwise the state at the
  end of the run.
\<close>

definition main :: "environment \<Rightarrow> 'w scraper \<Rightarrow> date_time \<Rightarrow> 'w \<Rightarrow> filesystem \<Rightarrow> nat + 'w run_state" where
  "main env scr now w f =
     (if API_KEY env = [] then Inl 1
      else
        (let st0 = archiveExistingResults now (initial_state w f);
             st1 = step1 scr env st0
         in Inr (step2 scr st1 (eventUrlSet st1))))"

subsection \<open>A job that is still in progress\<close>




subsection \<open>Decimal digits\<close>

definition is_dec :: "char \<Rightarrow> bool" where
  "is_dec c = (c \<in> set ''0123456789'')"

subsection \<open>Reading the record of a run\<close>

text \<open>
  The operations of \<open>archiveExistingResults\<close> in the record of a run, the texts that
  were written to the output file, in order, and a step that only called \<open>scrape\<close>: it
  left the files, the results and the set of URLs as they were.
\<close>

fun archive_op :: "io_event \<Rightarrow> bool" where
  "archive_op (ExistsSync p) = True"
| "archive_op (RenameSync p q) = True"
| "archive_op e = False"

fun is_scrape_call :: "io_event \<Rightarrow> bool" where
  "is_scrape_call (ScrapeCall urls p) = True"
| "is_scrape_call e = False"


definition only_scraped :: "'w run_state \<Rightarrow> 'w run_state \<Rightarrow> bool" where
  "only_scraped st st' =
     (fs st' = fs st \<and> allResults st' = allResults st \<and> eventUrlSet st' = eventUrlSet st
      \<and> (\<exists>calls. trace st' = trace st @ calls \<and> list_all is_scrape_call calls))"

text \<open>
  Work that comes after the archiving: it makes no operation of
  \<open>archiveExistingResults\<close> and changes no file but the output file.
\<close>

definition later_work :: "'w run_state \<Rightarrow> 'w run_state \<Rightarrow> bool" where
  "later_work st st' =
     ((\<exists>ops. trace st' = trace st @ ops \<and> list_all (\<lambda>e. \<not> archive_op e) ops)
      \<and> (\<forall>p. p \<noteq> outputPath \<longrightarrow> files (fs st') p = files (fs st) p))"

text \<open>The clock of the examples, and a file system with results of an earlier run.\<close>

definition sample_now :: date_time where
  "sample_now = \<lparr>year = 2026, month = 11, day = 3, hour = 9, minute = 5, second = 7, millisecond = 42\<rparr>"

definition sample_files :: filesystem where
  "sample_files = \<lparr>files = [''output/events.json'' \<mapsto> ''[]''], dirs = {''output''}\<rparr>"

text \<open>
  An environment and a service for the examples: the key is set and page 1 is asked
  for; the service answers every call by the prompt alone, from a table.
\<close>

definition sample_env :: environment where
  "sample_env = \<lparr>SPIDRA_API_KEY = Some ''key'', SPIDRA_BASE_URL = Some ''https://api'',
                  SEARCH_URL_var = None, PAGES_var = Some ''1''\<rparr>"

definition sample_service :: "(prompt \<Rightarrow> exn + jsvalue) \<Rightarrow> unit scraper" where
  "sample_service table = (\<lambda>urls p w. (table p, w))"

subsection \<open>The output file mirrors the results\<close>




definition empty_files :: filesystem where
  "empty_files = \<lparr>files = Map.empty, dirs = {}\<rparr>"

definition talk_record :: "string \<Rightarrow> event_record" where
  "talk_record u =
     \<lparr>event_name = JStr ''Talk'', event_url = JStr u, organizer_name = JStr [],
      organizer_url = JStr [], organizer_website = JNull, email = JNull, phone = JNull,
      address = JNull, facebook = JNull, follower_count = JNum 0, total_events = JNum 0\<rparr>"



subsection \<open>The URLs a page returned\<close>






subsection \<open>Values with a method \<open>includes\<close>, and services that fail at one stage\<close>





definition start :: "unit run_state" where
  "start = initial_state () empty_files"

section \<open>Reading JSON text\<close>











text \<open>
  What a JSON text keeps of a value: \<open>undefined\<close> in an array is read back as
  \<open>null\<close> and a property whose value is \<open>undefined\<close> is gone. \<open>nesting\<close>
  bounds the calls that reading the text of a value takes.
\<close>

primrec json_norm :: "jsvalue \<Rightarrow> jsvalue"
  and norm_elements :: "jsvalue list \<Rightarrow> jsvalue list"
  and norm_properties :: "(string \<times> jsvalue) list \<Rightarrow> (string \<times> jsvalue) list"
  and norm_property :: "string \<times> jsvalue \<Rightarrow> (string \<times> jsvalue) list"
where
  "json_norm JUndefined = JNull"
| "json_norm JNull = JNull"
| "json_norm (JBool b) = JBool b"
| "json_norm (JNum n) = JNum n"
| "json_norm (JStr s) = JStr s"
| "json_norm (JArr vs) = JArr (norm_elements vs)"
| "json_norm (JObj kvs) = JObj (norm_properties kvs)"
| "norm_elements [] = []"
| "norm_elements (v # vs) = json_norm v # norm_elements vs"
| "norm_properties [] = []"
| "norm_properties (kv # kvs) = norm_property kv @ norm_properties kvs"
| "norm_property (k, v) = (if v = JUndefined then [] else [(k, json_norm v)])"

primrec nesting :: "jsvalue \<Rightarrow> nat"
  and nesting_elements :: "jsvalue list \<Rightarrow> nat"
  and nesting_properties :: "(string \<times> jsvalue) list \<Rightarrow> nat"
  and nesting_property :: "string \<times> jsvalue \<Rightarrow> nat"
where
  "nesting JUndefined = 1"
| "nesting JNull = 1"
| "nesting (JBool b) = 1"
| "nesting (JNum n) = 1"
| "nesting (JStr s) = 1"
| "nesting (JArr vs) = Suc (nesting_elements vs)"
| "nesting (JObj kvs) = Suc (nesting_properties kvs)"
| "nesting_elements [] = 0"
| "nesting_elements (v # vs) = Suc (nesting v + nesting_elements vs)"
| "nesting_properties [] = 0"
| "nesting_properties (kv # kvs) = Suc (nesting_property kv + nesting_properties kvs)"
| "nesting_property (k, v) = nesting v"



text \<open>After the digits of a number the text goes on with something that is no digit.\<close>

definition no_digit_ahead :: "string \<Rightarrow> bool" where
  "no_digit_ahead rest = (case rest of [] \<Rightarrow> True | c # cs \<Rightarrow> \<not> is_digit 10 c)"

text \<open>
  A JSON value is one that its text keeps as it is. What \<open>scrape\<close> returns is a
  JSON value, parsed by \<open>json()\<close>, or \<open>undefined\<close>; a service all of whose
  results are such is a JSON service.
\<close>

definition json_value :: "jsvalue \<Rightarrow> bool" where
  "json_value v = (json_norm v = v)"

definition payload :: "jsvalue \<Rightarrow> bool" where
  "payload v = (v = JUndefined \<or> json_value v)"



section \<open>Properties of the page parser\<close>





























section \<open>Properties of the scrape job client\<close>









section \<open>Properties of the result store\<close>

lemma digits_of_length: "n < 10 ^ w \<Longrightarrow> 0 < w \<Longrightarrow> length (digits_of n) \<le> w"
proof (induction n arbitrary: w rule: digits_of.induct)
  case (1 n)
  show ?case
  proof (cases "n < 10")
    case True
    then have "digits_of n = [digit_char n]" by (subst digits_of.simps) simp
    with 1(3) show ?thesis by simp
  next
    case False
    obtain w' where w: "w = Suc w'" using 1(3) by (cases w) auto
    have "0 < w'"
    proof (rule ccontr)
      assume "\<not> 0 < w'"
      with w 1(2) False show False by simp
    qed
    have "n < 10 * 10 ^ w'" using 1(2) w by simp
    then have "n div 10 < 10 ^ w'" by (metis less_mult_imp_div_less mult.commute)
    then have "length (digits_of (n div 10)) \<le> w'" using 1(1) [OF False] \<open>0 < w'\<close> by blast
    moreover have "digits_of n = digits_of (n div 10) @ [digit_char (n mod 10)]"
      using False by (subst digits_of.simps) simp
    ultimately show ?thesis using w by simp
  qed
qed
lemma digit_char_dec: "d < 10 \<Longrightarrow> is_dec (digit_char d)"
proof -
  assume "d < 10"
  then have "d = 0 \<or> d = 1 \<or> d = 2 \<or> d = 3 \<or> d = 4 \<or> d = 5 \<or> d = 6 \<or> d = 7 \<or> d = 8 \<or> d = 9"
    by arith
  then show ?thesis
    by (elim disjE) (simp_all add: is_dec_def digit_char_def)
qed

lemma digits_of_dec: "c \<in> set (digits_of n) \<Longrightarrow> is_dec c"
proof (induction n rule: digits_of.induct)
  case (1 n)
  show ?case
  proof (cases "n < 10")
    case True
    then have "digits_of n = [digit_char n]" by (subst digits_of.simps) simp
    with 1(2) True show ?thesis by (simp add: digit_char_dec)
  next
    case False
    then have "digits_of n = digits_of (n div 10) @ [digit_char (n mod 10)]"
      by (subst digits_of.simps) simp
    with 1(2) have "c \<in> set (digits_of (n div 10)) \<or> c = digit_char (n mod 10)" by auto
    then show ?thesis
    proof
      assume "c \<in> set (digits_of (n div 10))"
      with 1(1) [OF False] show ?thesis .
    next
      assume "c = digit_char (n mod 10)"
      then show ?thesis by (simp add: digit_char_dec)
    qed
  qed
qed

lemma pad_length: "n < 10 ^ w \<Longrightarrow> 0 < w \<Longrightarrow> length (pad w n) = w"
  using digits_of_length [of n w] by (simp add: pad_def)

lemma pad_dec: "c \<in> set (pad w n) \<Longrightarrow> is_dec c"
proof -
  assume "c \<in> set (pad w n)"
  then have "c = CHR ''0'' \<or> c \<in> set (digits_of n)"
    by (auto simp: pad_def)
  moreover have "is_dec CHR ''0''" by (simp add: is_dec_def)
  ultimately show ?thesis using digits_of_dec by blast
qed

lemma dash_dec: "is_dec c \<Longrightarrow> dash c = c"
  by (auto simp: is_dec_def dash_def)

lemma map_dash_pad: "map dash (pad w n) = pad w n"
  by (rule map_idI) (simp add: dash_dec pad_dec)

lemma take_map_dash_fields:
  assumes "length a = 4" "length b = 2" "length c = 2" "length e = 2" "length f = 2" "length g = 2"
  shows "take 19 (map dash (a @ ''-'' @ b @ ''-'' @ c @ ''T'' @ e @ '':'' @ f @ '':'' @ g @ ''.'' @ h @ ''Z''))
       = map dash a @ ''-'' @ map dash b @ ''-'' @ map dash c @ ''T'' @ map dash e @ ''-'' @ map dash f @ ''-'' @ map dash g"
  using assms by (simp add: dash_def)

lemma timestamp_of_calendar:
  assumes "year d \<le> 9999" "month d \<le> 12" "day d \<le> 31" "hour d \<le> 23" "minute d \<le> 59"
    "second d \<le> 59"
  shows "timestamp_of d =
     pad 4 (year d) @ ''-'' @ pad 2 (month d) @ ''-'' @ pad 2 (day d)
     @ ''T'' @ pad 2 (hour d) @ ''-'' @ pad 2 (minute d) @ ''-'' @ pad 2 (second d)"
proof -
  have l: "length (pad 4 (year d)) = 4" "length (pad 2 (month d)) = 2" "length (pad 2 (day d)) = 2"
    "length (pad 2 (hour d)) = 2" "length (pad 2 (minute d)) = 2" "length (pad 2 (second d)) = 2"
    using assms by (simp_all add: pad_length)
  have "toISOString d = pad 4 (year d) @ ''-'' @ pad 2 (month d) @ ''-'' @ pad 2 (day d)
     @ ''T'' @ pad 2 (hour d) @ '':'' @ pad 2 (minute d) @ '':'' @ pad 2 (second d)
     @ ''.'' @ pad 3 (millisecond d) @ ''Z''"
    using assms(1) by (simp add: toISOString_def)
  then show ?thesis
    unfolding timestamp_of_def using take_map_dash_fields [OF l]
    by (simp only: map_dash_pad)
qed

section \<open>Properties of the pipeline\<close>



lemma scrape_call_not_archive: "is_scrape_call e \<Longrightarrow> \<not> archive_op e"
  by (cases e) auto

lemma only_scraped_refl: "only_scraped st st"
  by (simp add: only_scraped_def)

lemma only_scraped_trans: "only_scraped a b \<Longrightarrow> only_scraped b c \<Longrightarrow> only_scraped a c"
  by (auto simp: only_scraped_def)

lemma call_scrape_only_scraped: "call_scrape scr urls p st = (r, st1) \<Longrightarrow> only_scraped st st1"
  by (auto simp: call_scrape_def only_scraped_def split: prod.splits)

lemma organizer_stage_only_scraped: "organizer_stage scr event st = (v, st1) \<Longrightarrow> only_scraped st st1"
  by (auto simp: organizer_stage_def only_scraped_refl
           split: if_splits prod.splits sum.splits dest: call_scrape_only_scraped)

lemma website_stage_only_scraped: "website_stage scr organizer st = (v, st1) \<Longrightarrow> only_scraped st st1"
  by (auto simp: website_stage_def only_scraped_refl
           split: if_splits prod.splits sum.splits dest: call_scrape_only_scraped)

lemma fallback_stage_only_scraped: "fallback_stage scr wc st = (v, st1) \<Longrightarrow> only_scraped st st1"
  by (auto simp: fallback_stage_def only_scraped_refl
           split: if_splits prod.splits sum.splits dest: call_scrape_only_scraped)

lemma chain_only_scraped:
  assumes "call_scrape scr [u] EventPrompt st = (r, st1)"
    and "organizer_stage scr event st1 = (organizer, st2)"
    and "website_stage scr organizer st2 = (wc, st3)"
    and "fallback_stage scr wc st3 = (fc, st4)"
  shows "only_scraped st st4"
  using assms
  by (blast intro: only_scraped_trans call_scrape_only_scraped organizer_stage_only_scraped
        website_stage_only_scraped fallback_stage_only_scraped)

lemma process_event_emitted:
  assumes "call_scrape scr [u] EventPrompt st = (Inr event, st1)"
    and "organizer_stage scr event st1 = (organizer, st2)"
    and "website_stage scr organizer st2 = (wc, st3)"
    and "fallback_stage scr wc st3 = (fc, st4)"
    and "fuse u event organizer wc fc = Inr r"
  shows "process_event scr st u =
           saveResults (allResults st4 @ [r]) (st4\<lparr>allResults := allResults st4 @ [r]\<rparr>)"
  using assms by (simp add: process_event_def)

lemma process_event_dropped:
  assumes "call_scrape scr [u] EventPrompt st = (Inr event, st1)"
    and "organizer_stage scr event st1 = (organizer, st2)"
    and "website_stage scr organizer st2 = (wc, st3)"
    and "fallback_stage scr wc st3 = (fc, st4)"
    and "fuse u event organizer wc fc = Inl e"
  shows "process_event scr st u = st4"
  using assms by (simp add: process_event_def)

lemma process_event_event_throws:
  "call_scrape scr [u] EventPrompt st = (Inl e, st1) \<Longrightarrow> process_event scr st u = st1"
  by (simp add: process_event_def)

lemma fuse_event_url: "fuse u event organizer wc fc = Inr r \<Longrightarrow> event_url r = u"
  by (auto simp: fuse_def split: sum.splits)

text \<open>One event either leaves the results and the files alone or appends one record and saves.\<close>

lemma process_event_cases:
  obtains (skip) "only_scraped st (process_event scr st u)"
  | (emit) st4 r where "only_scraped st st4" "event_url r = u"
      "process_event scr st u =
         saveResults (allResults st @ [r]) (st4\<lparr>allResults := allResults st @ [r]\<rparr>)"
proof -
  obtain r1 st1 where c: "call_scrape scr [u] EventPrompt st = (r1, st1)" by fastforce
  show ?thesis
  proof (cases r1)
    case (Inl e)
    with c have "process_event scr st u = st1" by (simp add: process_event_event_throws)
    with c show ?thesis using skip call_scrape_only_scraped by metis
  next
    case (Inr event)
    obtain organizer st2 where o: "organizer_stage scr event st1 = (organizer, st2)" by fastforce
    obtain wc st3 where w: "website_stage scr organizer st2 = (wc, st3)" by fastforce
    obtain fc st4 where f: "fallback_stage scr wc st3 = (fc, st4)" by fastforce
    have q: "only_scraped st st4" using c o w f by (rule chain_only_scraped)
    show ?thesis
    proof (cases "fuse u event organizer wc fc")
      case (Inl e)
      then have "process_event scr st u = st4"
        using c o w f Inr by (simp add: process_event_dropped)
      with q show ?thesis using skip by simp
    next
      case (Inr r)
      then have "process_event scr st u =
           saveResults (allResults st4 @ [r]) (st4\<lparr>allResults := allResults st4 @ [r]\<rparr>)"
        using c o w f \<open>r1 = Inr event\<close> by (simp add: process_event_emitted)
      moreover have "allResults st4 = allResults st" using q by (simp add: only_scraped_def)
      ultimately show ?thesis using emit q fuse_event_url [OF Inr] by simp
    qed
  qed
qed

lemma later_work_refl: "later_work st st"
  by (simp add: later_work_def)

lemma later_work_trans: "later_work a b \<Longrightarrow> later_work b c \<Longrightarrow> later_work a c"
  by (auto simp: later_work_def)

lemma only_scraped_later_work: "only_scraped st st' \<Longrightarrow> later_work st st'"
  by (auto simp: only_scraped_def later_work_def list_all_iff dest: scrape_call_not_archive)

lemma saveResults_later_work:
  "later_work st st4 \<Longrightarrow> later_work st (saveResults rs (st4\<lparr>allResults := rs\<rparr>))"
  by (auto simp: later_work_def saveResults_def writeFileSync_def mkdirSync_def outputPath_def)

lemma process_event_later_work: "later_work st (process_event scr st u)"
  by (rule process_event_cases [of st scr u])
     (simp_all add: saveResults_later_work only_scraped_later_work)

lemma discover_page_later_work: "later_work st (discover_page scr env st page)"
proof -
  obtain r st1 where c: "call_scrape scr [JStr (page_url env page)] DiscoverPrompt st = (r, st1)"
    by fastforce
  then have "later_work st st1"
    by (blast intro: only_scraped_later_work call_scrape_only_scraped)
  then show ?thesis using c by (simp add: discover_page_def later_work_def)
qed

lemma step1_later_work: "later_work st (step1 scr env st)"
proof -
  have "later_work st (foldl (discover_page scr env) st pages)" for pages
  proof (induction pages arbitrary: st)
    case Nil
    show ?case by (simp add: later_work_refl)
  next
    case (Cons page pages)
    show ?case
      using later_work_trans [OF discover_page_later_work Cons.IH] by simp
  qed
  then show ?thesis by (simp add: step1_def)
qed

lemma step2_later_work: "later_work st (step2 scr st us)"
proof (induction us arbitrary: st)
  case Nil
  show ?case by (simp add: step2_def later_work_refl)
next
  case (Cons u us)
  show ?case
    using later_work_trans [OF process_event_later_work Cons.IH [unfolded step2_def]]
    by (simp add: step2_def)
qed

lemma main_later_work:
  "main env scr now w f = Inr final \<Longrightarrow>
   later_work (archiveExistingResults now (initial_state w f)) final"
  by (auto simp: main_def Let_def split: if_splits
           intro: later_work_trans step1_later_work step2_later_work)

lemma archivePath_not_outputPath: "archivePath now \<noteq> outputPath"
  by (simp add: archivePath_def outputPath_def)

lemma archive_absent:
  "\<not> existsSync (fs st) outputPath \<Longrightarrow>
   archiveExistingResults now st = st\<lparr>trace := trace st @ [ExistsSync outputPath]\<rparr>"
  by (simp add: archiveExistingResults_def)

lemma archive_present:
  assumes "files (fs st) outputPath = Some content"
  shows "files (fs (archiveExistingResults now st)) (archivePath now) = Some content"
    and "files (fs (archiveExistingResults now st)) outputPath = None"
    and "p \<noteq> outputPath \<Longrightarrow> p \<noteq> archivePath now \<Longrightarrow>
         files (fs (archiveExistingResults now st)) p = files (fs st) p"
    and "trace (archiveExistingResults now st) =
         trace st @ [ExistsSync outputPath, RenameSync outputPath (archivePath now)]"
  using assms archivePath_not_outputPath [of now]
  by (auto simp: archiveExistingResults_def existsSync_def renameSync_def)

text \<open>
  Claim C9. \<open>archiveExistingResults\<close> only looks when there is no file at the output
  path: the state is as before but for the record of that look. When there is a file, its
  content is afterwards found under the archive name, nothing is at the output path, and
  every other file is as before. For a clock within the calendar (years up to 9999) the
  archive name is \<open>output/events-YYYY-MM-DDTHH-mm-ss.json\<close>: dashes stand where the
  colons stood, and the period and the milliseconds are cut off. In a run of \<open>main\<close>
  its operations come first and once: the record of the run begins with them, nothing
  after them is an operation of the archiving, and the earlier results are still under
  the archive name when the run ends.
\<close>

theorem archiveExistingResults_once_before_step1:
  "(\<not> existsSync (fs st) outputPath \<longrightarrow>
      archiveExistingResults now st = st\<lparr>trace := trace st @ [ExistsSync outputPath]\<rparr>)
   \<and> (files (fs st) outputPath = Some content \<longrightarrow>
        files (fs (archiveExistingResults now st)) (archivePath now) = Some content
        \<and> files (fs (archiveExistingResults now st)) outputPath = None
        \<and> (\<forall>p. p \<noteq> outputPath \<and> p \<noteq> archivePath now \<longrightarrow>
              files (fs (archiveExistingResults now st)) p = files (fs st) p))
   \<and> (year now \<le> 9999 \<and> month now \<le> 12 \<and> day now \<le> 31 \<and> hour now \<le> 23
        \<and> minute now \<le> 59 \<and> second now \<le> 59 \<longrightarrow>
        archivePath now =
          ''output/events-'' @ pad 4 (year now) @ ''-'' @ pad 2 (month now) @ ''-'' @ pad 2 (day now)
          @ ''T'' @ pad 2 (hour now) @ ''-'' @ pad 2 (minute now) @ ''-'' @ pad 2 (second now)
          @ ''.json'')
   \<and> (main env scr now w f = Inr final \<longrightarrow>
        (\<exists>ops. trace final =
                 ExistsSync outputPath
                 # (if existsSync f outputPath then [RenameSync outputPath (archivePath now)] else [])
                 @ ops
               \<and> list_all (\<lambda>e. \<not> archive_op e) ops)
        \<and> (\<forall>old. files f outputPath = Some old \<longrightarrow>
              files (fs final) (archivePath now) = Some old))"
proof -
  have absent: "\<not> existsSync (fs st) outputPath \<longrightarrow>
      archiveExistingResults now st = st\<lparr>trace := trace st @ [ExistsSync outputPath]\<rparr>"
    by (simp add: archive_absent)
  have present: "files (fs st) outputPath = Some content \<longrightarrow>
        files (fs (archiveExistingResults now st)) (archivePath now) = Some content
        \<and> files (fs (archiveExistingResults now st)) outputPath = None
        \<and> (\<forall>p. p \<noteq> outputPath \<and> p \<noteq> archivePath now \<longrightarrow>
              files (fs (archiveExistingResults now st)) p = files (fs st) p)"
    by (simp add: archive_present)
  have name: "year now \<le> 9999 \<and> month now \<le> 12 \<and> day now \<le> 31 \<and> hour now \<le> 23
        \<and> minute now \<le> 59 \<and> second now \<le> 59 \<longrightarrow>
        archivePath now =
          ''output/events-'' @ pad 4 (year now) @ ''-'' @ pad 2 (month now) @ ''-'' @ pad 2 (day now)
          @ ''T'' @ pad 2 (hour now) @ ''-'' @ pad 2 (minute now) @ ''-'' @ pad 2 (second now)
          @ ''.json''"
    by (simp add: archivePath_def timestamp_of_calendar)
  have run: "main env scr now w f = Inr final \<longrightarrow>
        (\<exists>ops. trace final =
                 ExistsSync outputPath
                 # (if existsSync f outputPath then [RenameSync outputPath (archivePath now)] else [])
                 @ ops
               \<and> list_all (\<lambda>e. \<not> archive_op e) ops)
        \<and> (\<forall>old. files f outputPath = Some old \<longrightarrow>
              files (fs final) (archivePath now) = Some old)"
  proof
    assume m: "main env scr now w f = Inr final"
    let ?a = "archiveExistingResults now (initial_state w f)"
    have lw: "later_work ?a final" using m by (rule main_later_work)
    then obtain ops where ops: "trace final = trace ?a @ ops" "list_all (\<lambda>e. \<not> archive_op e) ops"
      by (auto simp: later_work_def)
    have "trace ?a = ExistsSync outputPath
                 # (if existsSync f outputPath then [RenameSync outputPath (archivePath now)] else [])"
      by (simp add: archiveExistingResults_def initial_state_def)
    with ops have t: "\<exists>ops. trace final =
                 ExistsSync outputPath
                 # (if existsSync f outputPath then [RenameSync outputPath (archivePath now)] else [])
                 @ ops
               \<and> list_all (\<lambda>e. \<not> archive_op e) ops"
      by auto
    have "files (fs final) (archivePath now) = Some old" if "files f outputPath = Some old" for old
    proof -
      have "files (fs (initial_state w f)) outputPath = Some old"
        using that by (simp add: initial_state_def)
      then have "files (fs ?a) (archivePath now) = Some old" by (rule archive_present(1))
      moreover have "files (fs final) (archivePath now) = files (fs ?a) (archivePath now)"
        using lw archivePath_not_outputPath [of now] by (simp add: later_work_def)
      ultimately show ?thesis by simp
    qed
    with t show "(\<exists>ops. trace final =
                 ExistsSync outputPath
                 # (if existsSync f outputPath then [RenameSync outputPath (archivePath now)] else [])
                 @ ops
               \<and> list_all (\<lambda>e. \<not> archive_op e) ops)
        \<and> (\<forall>old. files f outputPath = Some old \<longrightarrow>
              files (fs final) (archivePath now) = Some old)"
      by blast
  qed
  show ?thesis using absent present name run by blast
qed

theorem archiveExistingResults_once_before_step1_witness:
  "\<not> existsSync \<lparr>files = Map.empty, dirs = {}\<rparr> outputPath
   \<and> fs (archiveExistingResults sample_now (initial_state () \<lparr>files = Map.empty, dirs = {}\<rparr>))
       = \<lparr>files = Map.empty, dirs = {}\<rparr>
   \<and> files sample_files outputPath = Some ''[]''
   \<and> files (fs (archiveExistingResults sample_now (initial_state () sample_files)))
       ''output/events-2026-11-03T09-05-07.json'' = Some ''[]''
   \<and> files (fs (archiveExistingResults sample_now (initial_state () sample_files))) outputPath = None
   \<and> archivePath sample_now = ''output/events-2026-11-03T09-05-07.json''
   \<and> (\<exists>final ops. main sample_env (sample_service (\<lambda>p. Inl TypeError)) sample_now () sample_files = Inr final
        \<and> trace final = ExistsSync outputPath
            # RenameSync outputPath ''output/events-2026-11-03T09-05-07.json'' # ops
        \<and> list_all (\<lambda>e. \<not> archive_op e) ops
        \<and> files (fs final) ''output/events-2026-11-03T09-05-07.json'' = Some ''[]'')"
proof -
  let ?e = "\<lparr>files = Map.empty, dirs = {}\<rparr>"
  let ?scr = "sample_service (\<lambda>p. Inl TypeError)"
  have h1: "\<not> existsSync (fs (initial_state () ?e)) outputPath"
    by (simp add: existsSync_def initial_state_def)
  have h2: "files (fs (initial_state () sample_files)) outputPath = Some ''[]''"
    by (simp add: sample_files_def initial_state_def outputPath_def)
  have h3: "year sample_now \<le> 9999 \<and> month sample_now \<le> 12 \<and> day sample_now \<le> 31
     \<and> hour sample_now \<le> 23 \<and> minute sample_now \<le> 59 \<and> second sample_now \<le> 59"
    by (simp add: sample_now_def)
  obtain final where h4: "main sample_env ?scr sample_now () sample_files = Inr final"
    by (simp add: main_def API_KEY_def env_or_def sample_env_def Let_def)
  have x: "existsSync sample_files outputPath" "files sample_files outputPath = Some ''[]''"
    by (simp_all add: existsSync_def sample_files_def outputPath_def)
  note a = archiveExistingResults_once_before_step1
    [of "initial_state () ?e" sample_now "''[]''" sample_env ?scr "()" sample_files final]
  note b = archiveExistingResults_once_before_step1
    [of "initial_state () sample_files" sample_now "''[]''" sample_env ?scr "()" sample_files final]
  have "''output/events-'' @ pad 4 (year sample_now) @ ''-'' @ pad 2 (month sample_now)
          @ ''-'' @ pad 2 (day sample_now) @ ''T'' @ pad 2 (hour sample_now)
          @ ''-'' @ pad 2 (minute sample_now) @ ''-'' @ pad 2 (second sample_now) @ ''.json''
        = ''output/events-2026-11-03T09-05-07.json''"
    by code_simp
  then have sample_now_archivePath:
    "archivePath sample_now = ''output/events-2026-11-03T09-05-07.json''"
    using b h3 by simp
  have "fs (archiveExistingResults sample_now (initial_state () ?e)) = ?e"
    using a h1 by (simp add: initial_state_def)
  moreover have "files (fs (archiveExistingResults sample_now (initial_state () sample_files)))
       ''output/events-2026-11-03T09-05-07.json'' = Some ''[]''
     \<and> files (fs (archiveExistingResults sample_now (initial_state () sample_files))) outputPath = None"
    using b h2 sample_now_archivePath by simp
  moreover have "\<exists>ops. trace final = ExistsSync outputPath
            # RenameSync outputPath ''output/events-2026-11-03T09-05-07.json'' # ops
        \<and> list_all (\<lambda>e. \<not> archive_op e) ops
        \<and> files (fs final) ''output/events-2026-11-03T09-05-07.json'' = Some ''[]''"
    using b h4 x sample_now_archivePath by auto
  ultimately show ?thesis
    using h1 h4 x sample_now_archivePath by (auto simp: initial_state_def)
qed



























lemma cleanFacebook_falsy: "\<not> truthy fb \<Longrightarrow> cleanFacebook fb = Inr JNull"
  by (simp add: cleanFacebook_def)

lemma fuse_fields:
  assumes "cleanFacebook (opt_get wc ''facebook'') = Inr fb"
  shows "\<exists>r. fuse u event organizer wc fc = Inr r
      \<and> event_name r = js_or (opt_get event ''event_name'') (JStr [])
      \<and> event_url r = u
      \<and> organizer_name r =
          js_or (js_or (opt_get organizer ''organizer_name'') (opt_get event ''organizer_name'')) (JStr [])
      \<and> organizer_url r = js_or (opt_get event ''organizer_url'') (JStr [])
      \<and> organizer_website r = js_or (opt_get organizer ''website'') JNull
      \<and> email r = js_or (js_or (opt_get wc ''email'') (opt_get fc ''email'')) JNull
      \<and> phone r = js_or (js_or (opt_get wc ''phone'') (opt_get fc ''phone'')) JNull
      \<and> address r = js_or (js_or (opt_get wc ''address'') (opt_get fc ''address'')) JNull
      \<and> facebook r = js_or fb JNull
      \<and> follower_count r = js_or (opt_get organizer ''follower_count'') (JNum 0)
      \<and> total_events r = js_or (opt_get organizer ''total_events'') (JNum 0)"
  using assms by (simp add: fuse_def)

lemma fuse_Inr_fields:
  assumes "fuse u event organizer wc fc = Inr r"
  shows "event_name r = js_or (opt_get event ''event_name'') (JStr [])"
    and "event_url r = u"
    and "organizer_name r =
          js_or (js_or (opt_get organizer ''organizer_name'') (opt_get event ''organizer_name'')) (JStr [])"
    and "organizer_url r = js_or (opt_get event ''organizer_url'') (JStr [])"
    and "organizer_website r = js_or (opt_get organizer ''website'') JNull"
    and "email r = js_or (js_or (opt_get wc ''email'') (opt_get fc ''email'')) JNull"
    and "phone r = js_or (js_or (opt_get wc ''phone'') (opt_get fc ''phone'')) JNull"
    and "address r = js_or (js_or (opt_get wc ''address'') (opt_get fc ''address'')) JNull"
    and "follower_count r = js_or (opt_get organizer ''follower_count'') (JNum 0)"
    and "total_events r = js_or (opt_get organizer ''total_events'') (JNum 0)"
    and "\<exists>fb. cleanFacebook (opt_get wc ''facebook'') = Inr fb \<and> facebook r = js_or fb JNull"
  using assms by (auto simp: fuse_def split: sum.splits)















lemma cleanFacebook_result:
  assumes "cleanFacebook v = Inr fb"
  shows "js_or fb JNull =
           (if \<not> truthy v \<or> js_includes v ''facebook.com/Eventbrite'' = Inr True then JNull else v)"
proof (cases "truthy v")
  case False
  with assms show ?thesis by (simp add: cleanFacebook_def js_or_def)
next
  case True
  show ?thesis
  proof (cases "js_includes v ''facebook.com/Eventbrite''")
    case (Inl e)
    with assms True show ?thesis by (simp add: cleanFacebook_def)
  next
    case (Inr found)
    with assms True show ?thesis by (cases found) (auto simp: cleanFacebook_def js_or_def)
  qed
qed

lemma cleanFacebook_string:
  "cleanFacebook (JStr s) =
     Inr (if s = [] \<or> str_includes s ''facebook.com/Eventbrite'' then JNull else JStr s)"
  by (simp add: cleanFacebook_def)

text \<open>
  Claim C6. Of a record that is appended, the \<open>facebook\<close> field is \<open>null\<close> when the
  social link of the website stage is falsy (missing, \<open>null\<close>, the empty string) or
  includes \<open>facebook.com/Eventbrite\<close>, and is that link itself otherwise; whatever the
  fallback stage gave makes no difference to it. When the link is a string, or missing,
  there is such a record.
\<close>

theorem facebook_field_from_website_only:
  "(fuse u event organizer wc fc = Inr r \<longrightarrow>
      facebook r =
        (if \<not> truthy (opt_get wc ''facebook'')
            \<or> js_includes (opt_get wc ''facebook'') ''facebook.com/Eventbrite'' = Inr True
         then JNull else opt_get wc ''facebook''))
   \<and> (fuse u event organizer wc fc = Inr r \<and> fuse u event organizer wc fc' = Inr r' \<longrightarrow>
        facebook r' = facebook r)
   \<and> (opt_get wc ''facebook'' = JStr s \<longrightarrow>
        (\<exists>q. fuse u event organizer wc fc = Inr q
           \<and> facebook q = (if s = [] \<or> str_includes s ''facebook.com/Eventbrite'' then JNull
                            else JStr s)))
   \<and> (nullish (opt_get wc ''facebook'') \<longrightarrow>
        (\<exists>q. fuse u event organizer wc fc = Inr q \<and> facebook q = JNull))
   \<and> cleanFacebook (JStr ''https://www.facebook.com/Eventbrite'') = Inr JNull"
proof -
  have a: "fuse u event organizer wc fc = Inr r \<longrightarrow>
      facebook r =
        (if \<not> truthy (opt_get wc ''facebook'')
            \<or> js_includes (opt_get wc ''facebook'') ''facebook.com/Eventbrite'' = Inr True
         then JNull else opt_get wc ''facebook'')"
  proof
    assume "fuse u event organizer wc fc = Inr r"
    then obtain fb where "cleanFacebook (opt_get wc ''facebook'') = Inr fb" "facebook r = js_or fb JNull"
      using fuse_Inr_fields(11) by blast
    then show "facebook r =
        (if \<not> truthy (opt_get wc ''facebook'')
            \<or> js_includes (opt_get wc ''facebook'') ''facebook.com/Eventbrite'' = Inr True
         then JNull else opt_get wc ''facebook'')"
      by (simp only: cleanFacebook_result)
  qed
  have b: "fuse u event organizer wc fc = Inr r \<and> fuse u event organizer wc fc' = Inr r' \<longrightarrow>
        facebook r' = facebook r"
    using fuse_Inr_fields(11) [of u event organizer wc fc r]
      fuse_Inr_fields(11) [of u event organizer wc fc' r']
    by auto
  have c: "opt_get wc ''facebook'' = JStr s \<longrightarrow>
        (\<exists>q. fuse u event organizer wc fc = Inr q
           \<and> facebook q = (if s = [] \<or> str_includes s ''facebook.com/Eventbrite'' then JNull
                            else JStr s))"
  proof
    assume s: "opt_get wc ''facebook'' = JStr s"
    let ?v = "if s = [] \<or> str_includes s ''facebook.com/Eventbrite'' then JNull else JStr s"
    have "cleanFacebook (opt_get wc ''facebook'') = Inr ?v"
      using s by (simp only: cleanFacebook_string)
    from fuse_fields [OF this, of u event organizer fc]
    obtain q where "fuse u event organizer wc fc = Inr q" "facebook q = js_or ?v JNull"
      by blast
    moreover have "js_or ?v JNull = ?v" by (simp add: js_or_def)
    ultimately show "\<exists>q. fuse u event organizer wc fc = Inr q \<and> facebook q = ?v"
      by auto
  qed
  have d: "nullish (opt_get wc ''facebook'') \<longrightarrow>
        (\<exists>q. fuse u event organizer wc fc = Inr q \<and> facebook q = JNull)"
  proof
    assume "nullish (opt_get wc ''facebook'')"
    then have "cleanFacebook (opt_get wc ''facebook'') = Inr JNull"
      by (auto simp: nullish_def cleanFacebook_falsy)
    from fuse_fields [OF this, of u event organizer fc]
    show "\<exists>q. fuse u event organizer wc fc = Inr q \<and> facebook q = JNull"
      by (auto simp: js_or_def)
  qed
  have e: "cleanFacebook (JStr ''https://www.facebook.com/Eventbrite'') = Inr JNull"
    by code_simp
  show ?thesis by (intro conjI) (rule a b c d e)+
qed

theorem facebook_field_from_website_only_witness:
  "fuse (JStr ''https://x/e/1'') (JObj [(''event_name'', JStr ''Talk'')]) JNull
       (JObj [(''facebook'', JStr ''https://social/about'')])
       (JObj [(''facebook'', JStr ''https://other'')])
     = Inr ((talk_record ''https://x/e/1'')\<lparr>facebook := JStr ''https://social/about''\<rparr>)
   \<and> fuse (JStr ''https://x/e/1'') (JObj [(''event_name'', JStr ''Talk'')]) JNull
       (JObj [(''facebook'', JStr ''https://social/about'')]) (JObj [])
     = Inr ((talk_record ''https://x/e/1'')\<lparr>facebook := JStr ''https://social/about''\<rparr>)
   \<and> (\<exists>q. fuse (JStr ''https://x/e/1'') JNull JNull
          (JObj [(''facebook'', JStr ''https://www.facebook.com/Eventbrite'')]) (JObj []) = Inr q
       \<and> facebook q = JNull)
   \<and> (\<exists>q. fuse (JStr ''https://x/e/1'') JNull JNull (JObj [(''email'', JStr ''a@b.com'')])
          (JObj [(''facebook'', JStr ''https://other'')]) = Inr q
       \<and> facebook q = JNull)"
proof -
  let ?u = "JStr ''https://x/e/1''"
  let ?ev = "JObj [(''event_name'', JStr ''Talk'')]"
  let ?w1 = "JObj [(''facebook'', JStr ''https://social/about'')]"
  let ?w2 = "JObj [(''facebook'', JStr ''https://www.facebook.com/Eventbrite'')]"
  let ?w3 = "JObj [(''email'', JStr ''a@b.com'')]"
  let ?f = "JObj [(''facebook'', JStr ''https://other'')]"
  let ?r = "(talk_record ''https://x/e/1'')\<lparr>facebook := JStr ''https://social/about''\<rparr>"
  have s1: "opt_get ?w1 ''facebook'' = JStr ''https://social/about''"
    and s2: "opt_get ?w2 ''facebook'' = JStr ''https://www.facebook.com/Eventbrite''"
    and s3: "nullish (opt_get ?w3 ''facebook'')"
    by (simp_all add: opt_get_def nullish_def)
  have i1: "\<not> (''https://social/about'' = [] \<or> str_includes ''https://social/about'' ''facebook.com/Eventbrite'')"
    by code_simp
  have i2: "str_includes ''https://www.facebook.com/Eventbrite'' ''facebook.com/Eventbrite''"
    by code_simp
  note t1 = facebook_field_from_website_only
      [of ?u ?ev JNull ?w1 ?f ?r "JObj []" ?r "''https://social/about''"]
  obtain q where q: "fuse ?u ?ev JNull ?w1 ?f = Inr q" "facebook q = JStr ''https://social/about''"
    using s1 i1 t1 by auto
  have "q = ?r"
    using q(1) by (simp add: fuse_def cleanFacebook_def opt_get_def nullish_def js_or_def talk_record_def split: if_splits)
  then have a: "fuse ?u ?ev JNull ?w1 ?f = Inr ?r" using q(1) by simp
  obtain q' where q': "fuse ?u ?ev JNull ?w1 (JObj []) = Inr q'"
    using s1 facebook_field_from_website_only
      [of ?u ?ev JNull ?w1 "JObj []" ?r ?f ?r "''https://social/about''"]
    by blast
  then have "q' = ?r"
    by (simp add: fuse_def cleanFacebook_def opt_get_def nullish_def js_or_def talk_record_def split: if_splits)
  then have a': "fuse ?u ?ev JNull ?w1 (JObj []) = Inr ?r" using q' by simp
  have b: "\<exists>q. fuse ?u JNull JNull ?w2 (JObj []) = Inr q \<and> facebook q = JNull"
    using s2 i2 facebook_field_from_website_only
      [of ?u JNull JNull ?w2 "JObj []" ?r ?f ?r "''https://www.facebook.com/Eventbrite''"]
    by simp
  have c: "\<exists>q. fuse ?u JNull JNull ?w3 ?f = Inr q \<and> facebook q = JNull"
    using s3 facebook_field_from_website_only
      [of ?u JNull JNull ?w3 ?f ?r ?f ?r "[]"]
    by simp
  show ?thesis by (intro conjI) (rule a a' b c)+
qed


lemma get_prop_Cons:
  "get_prop (JObj ((k, v) # kvs)) key = (if key = k then v else get_prop (JObj kvs) key)"
  by simp









section \<open>Reading back what was written\<close>



































lemma no_digit_ahead_Cons: "\<not> is_digit 10 c \<Longrightarrow> no_digit_ahead (c # x)"
  by (simp add: no_digit_ahead_def)



































lemma json_value_payload: "json_value v \<Longrightarrow> payload v"
  by (simp add: payload_def)






















subsection \<open>Every write is a snapshot of all results, and reads back\<close>











end
